theory Spec2Isabelle
  imports Complex_Main "HOL-Library.Multiset"
begin

section \<open>The tables of supabase-schema.sql\<close>

text \<open>
  A UUID is a 128-bit key; only equality and an order on keys are used, so it is a
  natural number. A timestamp is a number of microseconds. A FLOAT8 value is the real
  number that a finite double stands for; the arithmetic on FLOAT8 rounds, see below.
\<close>

type_synonym uuid = nat
type_synonym timestamptz = int

record geography =
  g_lon :: real
  g_lat :: real

definition ST_MakePoint :: "real \<Rightarrow> real \<Rightarrow> geography" where
  "ST_MakePoint x y = \<lparr>g_lon = x, g_lat = y\<rparr>"

text \<open>The nearest integer, the even one of two that are equally near.\<close>

definition round_half_even :: "real \<Rightarrow> int" where
  "round_half_even x =
     (let f = \<lfloor>x\<rfloor> in
      if x - of_int f < 1 / 2 then f
      else if 1 / 2 < x - of_int f then f + 1
      else if even f then f else f + 1)"

text \<open>
  The column \<open>location\<close> is a GEOGRAPHY. PostGIS, which is not part of the repository,
  takes a point whose coordinates are out of range into range when it becomes a
  GEOGRAPHY, with the notice "Coordinate values were coerced into range [-180 -90, 180
  90] for GEOGRAPHY": a coordinate less than \<open>1e-10\<close> beyond its bound is moved onto the
  bound; then, if a coordinate is still out of range, the longitude is wrapped around
  and the latitude is reflected at the pole. A point in range is kept as it is.
\<close>

definition nudge :: "real \<Rightarrow> real \<Rightarrow> real" where
  "nudge bound x =
     (if x < - bound \<and> - bound - x < 1 / 10 ^ 10 then - bound
      else if x > bound \<and> x - bound < 1 / 10 ^ 10 then bound
      else x)"

definition remainder :: "real \<Rightarrow> real \<Rightarrow> real" where
  "remainder x y = x - of_int (round_half_even (x / y)) * y"

definition longitude_degrees_normalize :: "real \<Rightarrow> real" where
  "longitude_degrees_normalize lon0 =
     (let lon1 = (if lon0 > 360 then remainder lon0 360 else lon0);
          lon2 = (if lon1 < - 360 then remainder lon1 (- 360) else lon1);
          lon3 = (if lon2 > 180 then - 360 + lon2 else lon2);
          lon4 = (if lon3 < - 180 then 360 + lon3 else lon3)
      in if lon4 = - 180 then 180 else if lon4 = - 360 then 0 else lon4)"

definition latitude_degrees_normalize :: "real \<Rightarrow> real" where
  "latitude_degrees_normalize lat0 =
     (let lat1 = (if lat0 > 360 then remainder lat0 360 else lat0);
          lat2 = (if lat1 < - 360 then remainder lat1 (- 360) else lat1);
          lat3 = (if lat2 > 180 then 180 - lat2 else lat2);
          lat4 = (if lat3 < - 180 then - 180 - lat3 else lat3);
          lat5 = (if lat4 > 90 then 180 - lat4 else lat4)
      in if lat5 < - 90 then - 180 - lat5 else lat5)"

definition to_geography :: "geography \<Rightarrow> geography" where
  "to_geography p =
     (let x = nudge 180 (g_lon p); y = nudge 90 (g_lat p)
      in if x < - 180 \<or> x > 180 \<or> y < - 90 \<or> y > 90
         then \<lparr>g_lon = longitude_degrees_normalize x, g_lat = latitude_degrees_normalize y\<rparr>
         else \<lparr>g_lon = x, g_lat = y\<rparr>)"

text \<open>
  A row of \<open>hotspots\<close>. Every row is written by the trigger, which supplies
  \<open>location\<close>, \<open>avg_noise_db\<close> and \<open>report_count\<close> and lets the defaults fill
  \<open>id\<close>, \<open>created_at\<close> and \<open>updated_at\<close>, so no column of a row is NULL.
\<close>

record hotspot =
  h_id :: uuid
  h_location :: geography
  h_avg_noise_db :: real
  h_report_count :: int
  h_created_at :: timestamptz
  h_updated_at :: timestamptz

text \<open>
  A row of \<open>reports\<close>. \<open>noise_db\<close> has a CHECK but no NOT NULL, so it may be NULL;
  \<open>user_id\<close> is a nullable reference. \<open>location\<close> is the generated column
  \<open>ST_SetSRID(ST_MakePoint(longitude, latitude), 4326)\<close>, a GEOGRAPHY.
\<close>

record report =
  r_id :: uuid
  r_user_id :: "uuid option"
  r_latitude :: real
  r_longitude :: real
  r_noise_db :: "real option"
  r_noise_type :: string
  r_description :: "string option"
  r_media_urls :: "string list option"
  r_timestamp :: timestamptz
  r_is_anonymous :: bool
  r_status :: string

definition r_location :: "report \<Rightarrow> geography" where
  "r_location r = to_geography (ST_MakePoint (r_longitude r) (r_latitude r))"

datatype sql_error =
    not_null_violation
  | check_violation
  | unique_violation
  | numeric_value_out_of_range
  | division_by_zero
  | invalid_text_representation
  | insufficient_privilege

text \<open>
  What a statement reads from its surroundings: \<open>NOW()\<close>, the key that
  \<open>uuid_generate_v4()\<close> draws for a new row, and whether the role that runs the
  statement bypasses row-level security. The owner of the tables and the service role
  do; the roles of the app, \<open>anon\<close> and \<open>authenticated\<close>, do not. The trigger function
  is not SECURITY DEFINER: it runs under the role that inserts the report.
\<close>

record env =
  now :: timestamptz
  uuid_generate_v4 :: uuid
  bypasses_rls :: bool

section \<open>FLOAT8 arithmetic\<close>

text \<open>
  The nearest double to a real number, ties to the even mantissa: 53 bits of mantissa,
  exponents from -1022, below which the spacing stays that of the subnormal numbers.
  A result of magnitude \<open>2 ^ 1024\<close> or more stands for an infinity.
\<close>

definition float8 :: "real \<Rightarrow> real" where
  "float8 x =
     (if x = 0 then 0
      else
        let e = max \<lfloor>log 2 \<bar>x\<bar>\<rfloor> (- 1022);
            ulp = 2 powr (of_int e - 52)
        in of_int (round_half_even (x / ulp)) * ulp)"

text \<open>
  The operators of PostgreSQL on finite FLOAT8 values: the rounded result, or the error
  "value out of range" on overflow and on underflow to zero, or "division by zero".
\<close>

definition float8pl :: "real \<Rightarrow> real \<Rightarrow> sql_error + real" where
  "float8pl a b =
     (let result = float8 (a + b)
      in if 2 ^ 1024 \<le> \<bar>result\<bar> then Inl numeric_value_out_of_range else Inr result)"

definition float8mul :: "real \<Rightarrow> real \<Rightarrow> sql_error + real" where
  "float8mul a b =
     (let result = float8 (a * b)
      in if 2 ^ 1024 \<le> \<bar>result\<bar> then Inl numeric_value_out_of_range
         else if result = 0 \<and> a \<noteq> 0 \<and> b \<noteq> 0 then Inl numeric_value_out_of_range
         else Inr result)"

definition float8div :: "real \<Rightarrow> real \<Rightarrow> sql_error + real" where
  "float8div a b =
     (if b = 0 then Inl division_by_zero
      else
        let result = float8 (a / b)
        in if 2 ^ 1024 \<le> \<bar>result\<bar> then Inl numeric_value_out_of_range
           else if result = 0 \<and> a \<noteq> 0 then Inl numeric_value_out_of_range
           else Inr result)"

text \<open>An error ends the evaluation of an expression.\<close>

definition and_then :: "sql_error + 'a \<Rightarrow> ('a \<Rightarrow> sql_error + 'b) \<Rightarrow> sql_error + 'b" where
  "and_then r f = (case r of Inl err \<Rightarrow> Inl err | Inr v \<Rightarrow> f v)"

section \<open>The trigger aggregate_reports_to_hotspots\<close>

text \<open>
  PostGIS is not part of the repository: \<open>ST_Distance\<close> is a parameter \<open>d\<close> of the
  model, a function from two points to their distance in metres.
\<close>

type_synonym distance = "geography \<Rightarrow> geography \<Rightarrow> real"

text \<open>
  \<open>cluster_radius FLOAT8 := 0.001\<close>. On GEOGRAPHY the distances of PostGIS are in
  metres, so this radius is a millimetre (the comment of the source takes it for
  degrees).
\<close>

definition cluster_radius :: real where
  "cluster_radius = float8 0.001"

text \<open>
  Modelled from the spec: \<open>ST_DWithin\<close> is a PostGIS function, absent from the
  repository. The spec's \<open>withinRadius(a, b, r)\<close> is "equivalent to
  \<open>distance(a, b) <= r\<close>", the boundary included.
\<close>

definition ST_DWithin :: "distance \<Rightarrow> geography \<Rightarrow> geography \<Rightarrow> real \<Rightarrow> bool" where
  "ST_DWithin d a b r \<longleftrightarrow> d a b \<le> r"

text \<open>The rows that pass \<open>WHERE ST_DWithin(location, NEW.location, cluster_radius)\<close>.\<close>

definition within_cluster :: "distance \<Rightarrow> hotspot list \<Rightarrow> geography \<Rightarrow> hotspot list" where
  "within_cluster d hs p = filter (\<lambda>h. ST_DWithin d (h_location h) p cluster_radius) hs"

text \<open>
  \<open>ORDER BY key\<close> returns the rows in some order that is ascending in the key; SQL
  leaves the order of rows with equal keys to the engine. \<open>order_by key rows out\<close>
  holds when \<open>out\<close> is such an order of \<open>rows\<close>.
\<close>

definition order_by :: "('a \<Rightarrow> real) \<Rightarrow> 'a list \<Rightarrow> 'a list \<Rightarrow> bool" where
  "order_by key rows out \<longleftrightarrow> mset out = mset rows \<and> sorted (map key out)"

text \<open>\<open>SELECT * INTO hotspot_record ... LIMIT 1\<close>: the first row, or no row.\<close>

definition limit_1 :: "'a list \<Rightarrow> 'a option" where
  "limit_1 rows = (case rows of [] \<Rightarrow> None | h # _ \<Rightarrow> Some h)"

text \<open>
  The BEFORE UPDATE trigger \<open>update_updated_at_column\<close> on \<open>hotspots\<close>.
\<close>

definition update_updated_at_column :: "env \<Rightarrow> hotspot \<Rightarrow> hotspot" where
  "update_updated_at_column e h = h\<lparr>h_updated_at := now e\<rparr>"

text \<open>
  The expression \<open>((avg_noise_db * report_count) + NEW.noise_db) / (report_count + 1)\<close>
  on one row, its operands evaluated from left to right. The product, the sum and the
  quotient are FLOAT8 operations; \<open>report_count + 1\<close> is INT arithmetic and raises
  when it leaves the 32-bit range. With a NULL \<open>NEW.noise_db\<close> the sum and the
  quotient are NULL and their operators are not called.
\<close>

definition new_avg_noise_db :: "real option \<Rightarrow> hotspot \<Rightarrow> sql_error + real option" where
  "new_avg_noise_db noise_db h =
     and_then (float8mul (h_avg_noise_db h) (of_int (h_report_count h))) (\<lambda>product.
     and_then (case noise_db of
                 None \<Rightarrow> Inr None
               | Some x \<Rightarrow> and_then (float8pl product x) (\<lambda>total. Inr (Some total))) (\<lambda>total.
     if h_report_count h = 2147483647 then Inl numeric_value_out_of_range
     else case total of
            None \<Rightarrow> Inr None
          | Some t \<Rightarrow> and_then (float8div t (of_int (h_report_count h + 1)))
                       (\<lambda>quotient. Inr (Some quotient))))"

text \<open>The row that the SET clause writes when the new average is \<open>a\<close>.\<close>

definition set_clause :: "env \<Rightarrow> real \<Rightarrow> hotspot \<Rightarrow> hotspot" where
  "set_clause e a h =
     h\<lparr>h_avg_noise_db := a,
       h_report_count := h_report_count h + 1,
       h_updated_at := now e\<rparr>"

text \<open>
  The UPDATE on one row: a NULL average is refused by the NOT NULL column.
\<close>

definition update_row :: "env \<Rightarrow> real option \<Rightarrow> hotspot \<Rightarrow> sql_error + hotspot" where
  "update_row e noise_db h =
     and_then (new_avg_noise_db noise_db h) (\<lambda>avg.
       case avg of
         None \<Rightarrow> Inl not_null_violation
       | Some a \<Rightarrow> Inr (update_updated_at_column e (set_clause e a h)))"

fun update_rows :: "env \<Rightarrow> real option \<Rightarrow> uuid \<Rightarrow> hotspot list \<Rightarrow> sql_error + hotspot list" where
  "update_rows e noise_db i [] = Inr []"
| "update_rows e noise_db i (h # hs) =
     (if h_id h = i then
        (case update_row e noise_db h of
           Inl err \<Rightarrow> Inl err
         | Inr h' \<Rightarrow>
             (case update_rows e noise_db i hs of
                Inl err \<Rightarrow> Inl err
              | Inr hs' \<Rightarrow> Inr (h' # hs')))
      else
        (case update_rows e noise_db i hs of
           Inl err \<Rightarrow> Inl err
         | Inr hs' \<Rightarrow> Inr (h # hs')))"

text \<open>
  \<open>UPDATE hotspots SET ... WHERE id = hotspot_record.id\<close>. Row-level security is
  enabled on \<open>hotspots\<close> and its only policy is for SELECT: under a role that does not
  bypass it no row can be updated, and the UPDATE changes nothing and raises nothing.
\<close>

definition update_hotspots :: "env \<Rightarrow> real option \<Rightarrow> uuid \<Rightarrow> hotspot list \<Rightarrow> sql_error + hotspot list" where
  "update_hotspots e noise_db i hs =
     (if bypasses_rls e then update_rows e noise_db i hs else Inr hs)"

text \<open>
  \<open>INSERT INTO hotspots (location, avg_noise_db, report_count) VALUES (NEW.location,
  NEW.noise_db, 1)\<close>. There is no policy for INSERT: under a role that does not bypass
  row-level security the new row is refused. Otherwise the defaults give the key and
  both timestamps, and the NOT NULL of \<open>avg_noise_db\<close> and the primary key are
  checked.
\<close>

definition insert_hotspot :: "env \<Rightarrow> geography \<Rightarrow> real option \<Rightarrow> hotspot list \<Rightarrow> sql_error + hotspot list" where
  "insert_hotspot e loc noise_db hs =
     (if \<not> bypasses_rls e then Inl insufficient_privilege
      else case noise_db of
        None \<Rightarrow> Inl not_null_violation
      | Some x \<Rightarrow>
          if uuid_generate_v4 e \<in> h_id ` set hs then Inl unique_violation
          else Inr (hs @ [\<lparr>h_id = uuid_generate_v4 e, h_location = loc,
                           h_avg_noise_db = x, h_report_count = 1,
                           h_created_at = now e, h_updated_at = now e\<rparr>]))"

text \<open>
  The IF of the trigger. \<open>hotspot_record IS NOT NULL\<close> holds when a row was selected
  (a selected row has no NULL column), and fails when the SELECT found none.
\<close>

definition trigger_body :: "env \<Rightarrow> hotspot list \<Rightarrow> report \<Rightarrow> hotspot option \<Rightarrow> sql_error + hotspot list" where
  "trigger_body e hs NEW hotspot_record =
     (case hotspot_record of
        Some found \<Rightarrow> update_hotspots e (r_noise_db NEW) (h_id found) hs
      | None \<Rightarrow> insert_hotspot e (r_location NEW) (r_noise_db NEW) hs)"

text \<open>
  The SELECT of the trigger at the point \<open>p = NEW.location\<close>: the rows within the
  radius, ordered by their distance to \<open>p\<close> in one of the orders the engine may
  produce, cut to the first row. The policy for SELECT lets every role see every row.
\<close>

inductive select_hotspot_record :: "distance \<Rightarrow> hotspot list \<Rightarrow> geography \<Rightarrow> hotspot option \<Rightarrow> bool"
  for d hs p where
  first_row: "order_by (\<lambda>h. d (h_location h) p) (within_cluster d hs p) rows
        \<Longrightarrow> select_hotspot_record d hs p (limit_1 rows)"

text \<open>
  One run of the trigger for the inserted row \<open>NEW\<close>. The result is the new table,
  or the error that aborts the INSERT of the report.
\<close>

inductive aggregate_reports_to_hotspots ::
  "distance \<Rightarrow> env \<Rightarrow> hotspot list \<Rightarrow> report \<Rightarrow> sql_error + hotspot list \<Rightarrow> bool"
  for d e hs NEW where
  run: "select_hotspot_record d hs (r_location NEW) hotspot_record
        \<Longrightarrow> aggregate_reports_to_hotspots d e hs NEW (trigger_body e hs NEW hotspot_record)"

text \<open>
  Modelled from the spec: \<open>ST_Distance\<close> is a PostGIS function, absent from the
  repository. The spec's \<open>haversineDistanceKm\<close> is the great-circle distance by the
  Haversine formula with Earth radius 6371 km; \<open>ST_Distance\<close> on GEOGRAPHY measures in
  metres. The examples below use it only between a point and itself.
\<close>

definition spec_haversineDistanceKm :: distance where
  "spec_haversineDistanceKm a b =
     (let lat1 = g_lat a * pi / 180;
          lat2 = g_lat b * pi / 180;
          dLat = (g_lat b - g_lat a) * pi / 180;
          dLon = (g_lon b - g_lon a) * pi / 180;
          h = (sin (dLat / 2))\<^sup>2 + cos lat1 * cos lat2 * (sin (dLon / 2))\<^sup>2
      in 2 * 6371 * arcsin (sqrt h))"

definition spec_ST_Distance :: distance where
  "spec_ST_Distance a b = 1000 * spec_haversineDistanceKm a b"

text \<open>
  Sample data. A report of 85.5 dB from a point near Connaught Place, and a second one
  of 90 dB from the same point; the row the trigger founds from a report with decibel
  value \<open>x\<close> when the defaults give key \<open>i\<close> and time \<open>t\<close>; the owner of the tables and
  a role of the app.
\<close>

definition connaught_place :: report where
  "connaught_place = \<lparr>r_id = 1, r_user_id = Some 1, r_latitude = 28.625, r_longitude = 77.25,
     r_noise_db = Some 85.5, r_noise_type = ''traffic'',
     r_description = Some ''Heavy traffic noise near Connaught Place'', r_media_urls = None,
     r_timestamp = 0, r_is_anonymous = False, r_status = ''pending''\<rparr>"

definition connaught_place_again :: report where
  "connaught_place_again = connaught_place\<lparr>r_id := 3, r_noise_db := Some 90\<rparr>"

definition founded :: "uuid \<Rightarrow> timestamptz \<Rightarrow> report \<Rightarrow> real \<Rightarrow> hotspot" where
  "founded i t r x = \<lparr>h_id = i, h_location = r_location r, h_avg_noise_db = x,
     h_report_count = 1, h_created_at = t, h_updated_at = t\<rparr>"

definition as_owner :: "timestamptz \<Rightarrow> uuid \<Rightarrow> env" where
  "as_owner t i = \<lparr>now = t, uuid_generate_v4 = i, bypasses_rls = True\<rparr>"

definition as_app :: "timestamptz \<Rightarrow> uuid \<Rightarrow> env" where
  "as_app t i = \<lparr>now = t, uuid_generate_v4 = i, bypasses_rls = False\<rparr>"

text \<open>
  The double that the literal \<open>0.1\<close> denotes, and the report of that many decibels
  from the same point that has the key \<open>i\<close>.
\<close>

definition tenth :: real where
  "tenth = 3602879701896397 / 36028797018963968"


text \<open>Two hotspots at that point, with the keys 1 and 2.\<close>

definition twin_1 :: hotspot where
  "twin_1 = founded 1 0 connaught_place 85.5"

definition twin_2 :: hotspot where
  "twin_2 = founded 2 0 connaught_place 85.5"

section \<open>Runs of the trigger from the empty table\<close>

text \<open>
  The running mean as the trigger computes it: from the average \<open>m\<close> of \<open>c\<close> reports
  and one more decibel value, every operation rounded.
\<close>

definition next_mean :: "real \<Rightarrow> int \<Rightarrow> real \<Rightarrow> real" where
  "next_mean m c x = float8 (float8 (float8 (m * of_int c) + x) / of_int (c + 1))"

fun running_mean :: "real \<Rightarrow> int \<Rightarrow> real list \<Rightarrow> real" where
  "running_mean m c [] = m"
| "running_mean m c (x # xs) = running_mean (next_mean m c x) (c + 1) xs"

definition float8_mean :: "real list \<Rightarrow> real" where
  "float8_mean ds = (case ds of [] \<Rightarrow> 0 | first # rest \<Rightarrow> running_mean first 1 rest)"

text \<open>
  For each key, the reports that the trigger has absorbed into the hotspot of that key,
  oldest first: the position and the decibel value of each.
\<close>

type_synonym absorbed = "uuid \<Rightarrow> (geography \<times> real) list"

text \<open>The hotspot a run of the trigger writes: the selected row, or the row it founds.\<close>

definition absorbed_into :: "env \<Rightarrow> hotspot option \<Rightarrow> uuid" where
  "absorbed_into e hotspot_record =
     (case hotspot_record of Some found \<Rightarrow> h_id found | None \<Rightarrow> uuid_generate_v4 e)"

text \<open>
  \<open>history d rs hs ledger\<close>: starting from the empty table, the reports \<open>rs\<close> were
  inserted in this order under a role that bypasses row-level security, the trigger ran
  without error for each, the table is now \<open>hs\<close>, and \<open>ledger\<close> records which hotspot
  absorbed which report. A report whose trigger raises is rolled back and is no step.
  A report inserted under a role of the app changes no hotspot and is no step either,
  so these are all the tables that can be reached.
\<close>

inductive history :: "distance \<Rightarrow> report list \<Rightarrow> hotspot list \<Rightarrow> absorbed \<Rightarrow> bool"
  for d where
  empty_store: "history d [] [] (\<lambda>i. [])"
| absorb: "history d rs hs ledger
     \<Longrightarrow> bypasses_rls e
     \<Longrightarrow> select_hotspot_record d hs (r_location NEW) hotspot_record
     \<Longrightarrow> trigger_body e hs NEW hotspot_record = Inr hs'
     \<Longrightarrow> r_noise_db NEW = Some x
     \<Longrightarrow> history d (rs @ [NEW]) hs'
           (ledger(absorbed_into e hotspot_record :=
                  ledger (absorbed_into e hotspot_record) @ [(r_location NEW, x)]))"

section \<open>hotspots.getAll of lib/supabase.ts\<close>

text \<open>\<open>.order('avg_noise_db', { ascending: false })\<close>: some order descending in the key.\<close>

definition order_by_desc :: "('a \<Rightarrow> real) \<Rightarrow> 'a list \<Rightarrow> 'a list \<Rightarrow> bool" where
  "order_by_desc key rows out \<longleftrightarrow> mset out = mset rows \<and> sorted_wrt (\<ge>) (map key out)"

text \<open>
  The optional \<open>limit\<close> is a natural number or absent. \<open>if (limit)\<close> is false for an
  absent limit and for 0, and then no LIMIT is sent. The request is
  \<open>SELECT * FROM hotspots ORDER BY avg_noise_db DESC [LIMIT n]\<close>; the store answers.
\<close>

definition apply_limit :: "nat option \<Rightarrow> 'a list \<Rightarrow> 'a list" where
  "apply_limit limit rows =
     (case limit of None \<Rightarrow> rows | Some n \<Rightarrow> if n \<noteq> 0 then take n rows else rows)"

inductive hotspots_getAll :: "hotspot list \<Rightarrow> nat option \<Rightarrow> hotspot list \<Rightarrow> bool"
  for hs limit where
  data: "order_by_desc h_avg_noise_db hs rows \<Longrightarrow> hotspots_getAll hs limit (apply_limit limit rows)"

text \<open>
  The order the spec gives for \<open>listBySeverityDesc\<close>, in its words: by
  \<open>averageDecibels\<close> descending, ties broken by \<open>reportCount\<close> descending, then by \<open>id\<close>
  ascending.
\<close>

definition spec_severity_before :: "hotspot \<Rightarrow> hotspot \<Rightarrow> bool" where
  "spec_severity_before a b \<longleftrightarrow>
     h_avg_noise_db a > h_avg_noise_db b
     \<or> (h_avg_noise_db a = h_avg_noise_db b
        \<and> (h_report_count a > h_report_count b
           \<or> (h_report_count a = h_report_count b \<and> h_id a \<le> h_id b)))"

definition spec_listBySeverityDesc_order :: "hotspot list \<Rightarrow> bool" where
  "spec_listBySeverityDesc_order out \<longleftrightarrow> sorted_wrt spec_severity_before out"

text \<open>Two hotspots of equal average: the second has absorbed more reports.\<close>

definition single_report_hotspot :: hotspot where
  "single_report_hotspot = \<lparr>h_id = 1, h_location = ST_MakePoint 77.2090 28.6139,
     h_avg_noise_db = 80, h_report_count = 1, h_created_at = 0, h_updated_at = 0\<rparr>"

definition five_report_hotspot :: hotspot where
  "five_report_hotspot = \<lparr>h_id = 2, h_location = ST_MakePoint 77.1025 28.7041,
     h_avg_noise_db = 80, h_report_count = 5, h_created_at = 0, h_updated_at = 9\<rparr>"

section \<open>Numbers of lib/utils.ts\<close>

text \<open>
  A JavaScript number: a finite value, an infinity or NaN. Finite values are real
  numbers: rounding, overflow and the sign of zero are not modelled.
\<close>

datatype number = Num real | PosInfinity | NegInfinity | NaN

definition Math_sqrt :: "number \<Rightarrow> number" where
  "Math_sqrt v = (case v of
       Num x \<Rightarrow> if x < 0 then NaN else Num (sqrt x)
     | PosInfinity \<Rightarrow> PosInfinity
     | NegInfinity \<Rightarrow> NaN
     | NaN \<Rightarrow> NaN)"

definition Math_log10 :: "number \<Rightarrow> number" where
  "Math_log10 v = (case v of
       Num x \<Rightarrow> if x < 0 then NaN else if x = 0 then NegInfinity else Num (log 10 x)
     | PosInfinity \<Rightarrow> PosInfinity
     | NegInfinity \<Rightarrow> NaN
     | NaN \<Rightarrow> NaN)"

definition Math_abs :: "number \<Rightarrow> number" where
  "Math_abs v = (case v of
       Num x \<Rightarrow> Num \<bar>x\<bar>
     | PosInfinity \<Rightarrow> PosInfinity
     | NegInfinity \<Rightarrow> PosInfinity
     | NaN \<Rightarrow> NaN)"

definition Math_min :: "number \<Rightarrow> number \<Rightarrow> number" where
  "Math_min a b = (case (a, b) of
       (NaN, _) \<Rightarrow> NaN
     | (_, NaN) \<Rightarrow> NaN
     | (NegInfinity, _) \<Rightarrow> NegInfinity
     | (_, NegInfinity) \<Rightarrow> NegInfinity
     | (PosInfinity, y) \<Rightarrow> y
     | (x, PosInfinity) \<Rightarrow> x
     | (Num x, Num y) \<Rightarrow> Num (min x y))"

definition Math_max :: "number \<Rightarrow> number \<Rightarrow> number" where
  "Math_max a b = (case (a, b) of
       (NaN, _) \<Rightarrow> NaN
     | (_, NaN) \<Rightarrow> NaN
     | (PosInfinity, _) \<Rightarrow> PosInfinity
     | (_, PosInfinity) \<Rightarrow> PosInfinity
     | (NegInfinity, y) \<Rightarrow> y
     | (x, NegInfinity) \<Rightarrow> x
     | (Num x, Num y) \<Rightarrow> Num (max x y))"

text \<open>The product \<open>c * v\<close> and the quotient \<open>v / c\<close> for a finite \<open>c\<close>.\<close>

definition times_number :: "real \<Rightarrow> number \<Rightarrow> number" where
  "times_number c v = (case v of
       Num x \<Rightarrow> Num (c * x)
     | PosInfinity \<Rightarrow> if 0 < c then PosInfinity else if c < 0 then NegInfinity else NaN
     | NegInfinity \<Rightarrow> if 0 < c then NegInfinity else if c < 0 then PosInfinity else NaN
     | NaN \<Rightarrow> NaN)"

definition divide_number :: "number \<Rightarrow> real \<Rightarrow> number" where
  "divide_number v c = (case v of
       Num x \<Rightarrow> if c \<noteq> 0 then Num (x / c)
                else if 0 < x then PosInfinity else if x < 0 then NegInfinity else NaN
     | PosInfinity \<Rightarrow> if 0 \<le> c then PosInfinity else NegInfinity
     | NegInfinity \<Rightarrow> if 0 \<le> c then NegInfinity else PosInfinity
     | NaN \<Rightarrow> NaN)"

text \<open>
  \<open>audioUtils.calculateDbFromAudio\<close>. The argument is absent (\<open>null\<close> or
  \<open>undefined\<close>) or an array of finite samples.
\<close>

definition calculateDbFromAudio :: "real list option \<Rightarrow> number" where
  "calculateDbFromAudio audioData =
     (case audioData of
        None \<Rightarrow> Num 0
      | Some samples \<Rightarrow>
          if length samples = 0 then Num 0
          else
            let sum = foldl (\<lambda>acc sample. acc + sample * sample) 0 samples;
                rms = Math_sqrt (Num (sum / real (length samples)));
                db = times_number 20 (Math_log10 (divide_number rms 32767))
            in Math_max (Num 0) (Math_min (Num 120) (Math_abs db)))"


section \<open>Inserting a report: the table constraints and createReportMutation\<close>

text \<open>
  The database: the keys of \<open>users\<close>, and the rows of \<open>reports\<close> and \<open>hotspots\<close>.
\<close>

record database =
  users :: "uuid list"
  reports :: "report list"
  hotspots :: "hotspot list"

text \<open>
  The object that \<open>reportsApi.create\<close> sends: a \<open>Report\<close> without \<open>id\<close> and
  \<open>timestamp\<close>. Its \<open>user_id\<close> and \<open>noise_type\<close> are strings until the database reads
  them; its numbers are numbers of JavaScript.
\<close>

record report_insert =
  i_user_id :: string
  i_latitude :: number
  i_longitude :: number
  i_noise_db :: number
  i_noise_type :: string
  i_description :: "string option"
  i_media_urls :: "string list option"
  i_is_anonymous :: bool
  i_status :: string

text \<open>
  The object travels as JSON, where a number that is not finite is written \<open>null\<close>;
  the database reads \<open>null\<close> as NULL.
\<close>

definition JSON_stringify :: "number \<Rightarrow> real option" where
  "JSON_stringify v = (case v of Num x \<Rightarrow> Some x | _ \<Rightarrow> None)"

text \<open>
  What the INSERT on \<open>reports\<close> reads from its surroundings: the key of the signed-in
  user (\<open>auth.uid()\<close>), the input function of the type UUID, the key and the time that
  the defaults of \<open>id\<close> and \<open>timestamp\<close> give the row, and the surroundings of the
  trigger, the role among them.
\<close>

record request =
  auth_uid :: "uuid option"
  uuid_in :: "string \<Rightarrow> uuid option"
  report_key :: uuid
  trigger_env :: env

text \<open>The CHECK constraints of \<open>reports\<close>; a CHECK passes on NULL.\<close>

definition noise_db_check :: "real option \<Rightarrow> bool" where
  "noise_db_check noise_db = (case noise_db of None \<Rightarrow> True | Some x \<Rightarrow> x \<ge> 0 \<and> x \<le> 120)"

definition noise_type_check :: "string \<Rightarrow> bool" where
  "noise_type_check noise_type \<longleftrightarrow>
     noise_type \<in> set [''traffic'', ''construction'', ''events'', ''industrial'', ''other'']"

definition status_check :: "string \<Rightarrow> bool" where
  "status_check status \<longleftrightarrow> status \<in> set [''pending'', ''reviewed'', ''resolved'']"

text \<open>
  The policy "Users can insert reports":
  \<open>WITH CHECK (auth.uid() = user_id OR is_anonymous = true)\<close>. The comparison is NULL
  without a signed-in user, and then only an anonymous row passes.
\<close>

definition insert_policy :: "uuid option \<Rightarrow> uuid option \<Rightarrow> bool \<Rightarrow> bool" where
  "insert_policy uid user_id is_anonymous \<longleftrightarrow>
     (case (uid, user_id) of (Some a, Some b) \<Rightarrow> a = b | _ \<Rightarrow> False)
     \<or> is_anonymous"

text \<open>
  The values are read, then checked against the policy (unless the role bypasses
  row-level security), the NOT NULL and CHECK constraints, the primary key and the
  reference to \<open>users\<close>, in this order; all of it happens before the AFTER INSERT
  trigger fires. There is no constraint on the range of \<open>latitude\<close> or \<open>longitude\<close>.
\<close>

datatype insert_error =
    sql sql_error
  | foreign_key_violation

definition new_report_row :: "request \<Rightarrow> uuid \<Rightarrow> real \<Rightarrow> real \<Rightarrow> report_insert \<Rightarrow> report" where
  "new_report_row q u lat lon i =
     \<lparr>r_id = report_key q, r_user_id = Some u,
      r_latitude = lat, r_longitude = lon,
      r_noise_db = JSON_stringify (i_noise_db i), r_noise_type = i_noise_type i,
      r_description = i_description i, r_media_urls = i_media_urls i,
      r_timestamp = now (trigger_env q), r_is_anonymous = i_is_anonymous i,
      r_status = i_status i\<rparr>"

definition checked_report_row :: "request \<Rightarrow> database \<Rightarrow> report_insert \<Rightarrow> insert_error + report" where
  "checked_report_row q db i =
     (case uuid_in q (i_user_id i) of
        None \<Rightarrow> Inl (sql invalid_text_representation)
      | Some u \<Rightarrow>
          if \<not> bypasses_rls (trigger_env q) \<and> \<not> insert_policy (auth_uid q) (Some u) (i_is_anonymous i)
            then Inl (sql insufficient_privilege)
          else
            (case (JSON_stringify (i_latitude i), JSON_stringify (i_longitude i)) of
               (Some lat, Some lon) \<Rightarrow>
                 let row = new_report_row q u lat lon i in
                 if \<not> (noise_db_check (r_noise_db row) \<and> noise_type_check (r_noise_type row)
                         \<and> status_check (r_status row))
                   then Inl (sql check_violation)
                 else if r_id row \<in> r_id ` set (reports db) then Inl (sql unique_violation)
                 else if (case r_user_id row of None \<Rightarrow> False | Some u \<Rightarrow> u \<notin> set (users db))
                   then Inl foreign_key_violation
                 else Inr row
             | _ \<Rightarrow> Inl (sql not_null_violation)))"

text \<open>
  The outcome of the INSERT: refused before the trigger fired; rolled back because the
  trigger raised; or done, with the new row and the new database.
\<close>

datatype insert_outcome =
    Refused insert_error
  | Rolled_back sql_error
  | Inserted report database

inductive insert_into_reports ::
  "distance \<Rightarrow> request \<Rightarrow> database \<Rightarrow> report_insert \<Rightarrow> insert_outcome \<Rightarrow> bool"
  for d q db i where
  refused: "checked_report_row q db i = Inl err \<Longrightarrow> insert_into_reports d q db i (Refused err)"
| rolled_back: "checked_report_row q db i = Inr row
      \<Longrightarrow> aggregate_reports_to_hotspots d (trigger_env q) (hotspots db) row (Inl err)
      \<Longrightarrow> insert_into_reports d q db i (Rolled_back err)"
| inserted: "checked_report_row q db i = Inr row
      \<Longrightarrow> aggregate_reports_to_hotspots d (trigger_env q) (hotspots db) row (Inr hs')
      \<Longrightarrow> insert_into_reports d q db i
            (Inserted row (db\<lparr>reports := reports db @ [row], hotspots := hs'\<rparr>))"

text \<open>
  The client of lib/supabase.ts is created with the anonymous key: its requests run
  under a role of the app, \<open>anon\<close> or \<open>authenticated\<close>, which does not bypass
  row-level security.
\<close>

definition supabase_client :: "request \<Rightarrow> request" where
  "supabase_client q = q\<lparr>trigger_env := (trigger_env q)\<lparr>bypasses_rls := False\<rparr>\<rparr>"

text \<open>
  The argument of the mutation of \<open>useReports\<close>, and the state it reads: whether the
  device is online, the key of the signed-in user if there is one, and the queue of
  reports kept for later, each with the time it was queued. The store starts with
  \<open>isOnline: true\<close>.
\<close>

record reportData =
  latitude :: number
  longitude :: number
  noise_db :: number
  noise_type :: string
  description :: "string option"
  media_urls :: "string list option"
  is_anonymous :: "bool option"

record app_state =
  isOnline :: bool
  user :: "string option"
  offlineReports :: "(timestamptz \<times> reportData) list"

text \<open>
  What the mutation returns or throws, and whether the trigger ran in the course of it.
\<close>

datatype mutation_result =
    returned_offlineReport "timestamptz \<times> reportData"
  | thrown_Error string
  | thrown_insert_error insert_error
  | thrown_trigger_error sql_error
  | returned_data report



text \<open>\<open>reportData.is_anonymous\<close> as a condition: absent counts as false.\<close>

definition anonymous :: "reportData \<Rightarrow> bool" where
  "anonymous reportData = (case is_anonymous reportData of None \<Rightarrow> False | Some b \<Rightarrow> b)"

text \<open>
  The object passed to \<open>reportsApi.create\<close>. Past the guard of the mutation a report
  that is not anonymous has a signed-in user.
\<close>

definition create_argument :: "app_state \<Rightarrow> reportData \<Rightarrow> report_insert" where
  "create_argument s reportData =
     \<lparr>i_user_id = (if anonymous reportData then ''''
                    else (case user s of Some u \<Rightarrow> u | None \<Rightarrow> '''')),
      i_latitude = latitude reportData,
      i_longitude = longitude reportData,
      i_noise_db = noise_db reportData,
      i_noise_type = noise_type reportData,
      i_description = description reportData,
      i_media_urls = media_urls reportData,
      i_is_anonymous = anonymous reportData,
      i_status = ''pending''\<rparr>"

text \<open>
  \<open>createReportMutation.mutationFn\<close>: offline, the report is queued as it is and
  returned; online, the guard on the user, then \<open>reportsApi.create\<close>, whose error is
  thrown. \<open>date_now\<close> is \<open>Date.now()\<close>. The result comes with the new state of the app
  and of the database.
\<close>

inductive createReportMutation ::
  "distance \<Rightarrow> request \<Rightarrow> timestamptz \<Rightarrow> app_state \<Rightarrow> database \<Rightarrow> reportData
     \<Rightarrow> mutation_result \<times> app_state \<times> database \<Rightarrow> bool"
  for d q date_now s db reportData where
  offline: "\<not> isOnline s
      \<Longrightarrow> createReportMutation d q date_now s db reportData
            (returned_offlineReport (date_now, reportData),
             s\<lparr>offlineReports := offlineReports s @ [(date_now, reportData)]\<rparr>, db)"
| unauthenticated: "isOnline s \<Longrightarrow> user s = None \<Longrightarrow> \<not> anonymous reportData
      \<Longrightarrow> createReportMutation d q date_now s db reportData
            (thrown_Error ''User must be authenticated or report must be anonymous'', s, db)"
| create_refused: "isOnline s \<Longrightarrow> \<not> (user s = None \<and> \<not> anonymous reportData)
      \<Longrightarrow> insert_into_reports d (supabase_client q) db (create_argument s reportData) (Refused err)
      \<Longrightarrow> createReportMutation d q date_now s db reportData (thrown_insert_error err, s, db)"
| create_rolled_back: "isOnline s \<Longrightarrow> \<not> (user s = None \<and> \<not> anonymous reportData)
      \<Longrightarrow> insert_into_reports d (supabase_client q) db (create_argument s reportData) (Rolled_back err)
      \<Longrightarrow> createReportMutation d q date_now s db reportData (thrown_trigger_error err, s, db)"
| create_done: "isOnline s \<Longrightarrow> \<not> (user s = None \<and> \<not> anonymous reportData)
      \<Longrightarrow> insert_into_reports d (supabase_client q) db (create_argument s reportData) (Inserted row db')
      \<Longrightarrow> createReportMutation d q date_now s db reportData (returned_data row, s, db')"

text \<open>
  A signed-in user on a device that is online, the request of that user, whose UUID
  input function reads the user's key, and two databases that know the user: one with
  no hotspot, one with the hotspot that the owner's report from latitude 85 has founded.
\<close>

definition signed_in :: app_state where
  "signed_in = \<lparr>isOnline = True, user = Some ''user-1'', offlineReports = []\<rparr>"

definition request_of_user_1 :: request where
  "request_of_user_1 = \<lparr>auth_uid = Some 1,
     uuid_in = (\<lambda>s. if s = ''user-1'' then Some 1 else None),
     report_key = 7,
     trigger_env = as_app 5 10\<rparr>"

definition one_user :: database where
  "one_user = \<lparr>users = [1], reports = [], hotspots = []\<rparr>"

definition polar_report :: report where
  "polar_report = \<lparr>r_id = 2, r_user_id = Some 1, r_latitude = 85, r_longitude = 77.25,
     r_noise_db = Some 40, r_noise_type = ''other'', r_description = None,
     r_media_urls = None, r_timestamp = 0, r_is_anonymous = False, r_status = ''pending''\<rparr>"

definition polar_hotspot :: hotspot where
  "polar_hotspot = founded 4 0 polar_report 40"


definition traffic_report :: "number \<Rightarrow> number \<Rightarrow> number \<Rightarrow> reportData" where
  "traffic_report lat lng db = \<lparr>latitude = lat, longitude = lng, noise_db = db,
     noise_type = ''traffic'', description = None, media_urls = None,
     is_anonymous = Some False\<rparr>"



section \<open>Concurrent runs of the trigger\<close>






section \<open>Ordering and selection\<close>

lemma order_by_set: "order_by key rows out \<Longrightarrow> set out = set rows"
  unfolding order_by_def by (metis set_mset_mset)

lemma order_by_length: "order_by key rows out \<Longrightarrow> length out = length rows"
  unfolding order_by_def by (metis size_mset)

lemma order_by_sort_key: "order_by key rows (sort_key key rows)"
  unfolding order_by_def by simp

lemma order_by_first_minimal:
  assumes "order_by key rows (h # rest)"
  shows "h \<in> set rows \<and> (\<forall>h'\<in>set rows. key h \<le> key h')"
proof -
  have s: "set (h # rest) = set rows" using assms by (rule order_by_set)
  have "sorted (map key (h # rest))" using assms unfolding order_by_def by simp
  then have "\<forall>h'\<in>set (h # rest). key h \<le> key h'" by auto
  with s show ?thesis by auto
qed

lemma order_by_minimal_first:
  assumes "h \<in> set rows" and "\<forall>h'\<in>set rows. key h \<le> key h'"
  shows "order_by key rows (h # sort_key key (remove1 h rows))"
proof -
  have "mset (h # sort_key key (remove1 h rows)) = mset rows"
    using assms(1) by simp
  moreover have "sorted (map key (h # sort_key key (remove1 h rows)))"
    using assms(2) by (auto dest: notin_set_remove1)
  ultimately show ?thesis unfolding order_by_def by simp
qed

lemma select_hotspot_record_iff:
  "select_hotspot_record d hs p res \<longleftrightarrow>
     (case res of
        None \<Rightarrow> within_cluster d hs p = []
      | Some h \<Rightarrow> h \<in> set (within_cluster d hs p) \<and>
          (\<forall>h'\<in>set (within_cluster d hs p). d (h_location h) p \<le> d (h_location h') p))"
  (is "?L \<longleftrightarrow> ?R")
proof
  assume ?L
  then obtain rows where o: "order_by (\<lambda>h. d (h_location h) p) (within_cluster d hs p) rows"
    and r: "res = limit_1 rows"
    by (auto elim: select_hotspot_record.cases)
  show ?R
  proof (cases rows)
    case Nil
    with o have "within_cluster d hs p = []" unfolding order_by_def by simp
    with Nil r show ?thesis by (simp add: limit_1_def)
  next
    case (Cons h rest)
    with o order_by_first_minimal[of "\<lambda>h. d (h_location h) p" _ h rest] r
    show ?thesis by (simp add: limit_1_def)
  qed
next
  assume R: ?R
  show ?L
  proof (cases res)
    case None
    with R have "within_cluster d hs p = []" by simp
    then have "order_by (\<lambda>h. d (h_location h) p) (within_cluster d hs p) []"
      unfolding order_by_def by simp
    from select_hotspot_record.first_row[OF this] None show ?thesis by (simp add: limit_1_def)
  next
    case (Some h)
    with R have "order_by (\<lambda>h. d (h_location h) p) (within_cluster d hs p)
       (h # sort_key (\<lambda>h. d (h_location h) p) (remove1 h (within_cluster d hs p)))"
      by (intro order_by_minimal_first) auto
    from select_hotspot_record.first_row[OF this] Some show ?thesis by (simp add: limit_1_def)
  qed
qed

lemma select_hotspot_record_total: "\<exists>res. select_hotspot_record d hs p res"
  using select_hotspot_record.first_row[OF order_by_sort_key] by blast

section \<open>Rounding to FLOAT8\<close>

lemma float8_binade:
  assumes "2 powr of_int e \<le> \<bar>x\<bar>" and "\<bar>x\<bar> < 2 powr of_int (e + 1)" and "- 1022 \<le> e"
  shows "float8 x = of_int (round_half_even (x / 2 powr (of_int e - 52))) * 2 powr (of_int e - 52)"
proof -
  have pos: "0 < \<bar>x\<bar>" using assms(1) by (smt (verit) powr_gt_zero)
  have "\<lfloor>log 2 \<bar>x\<bar>\<rfloor> = e"
    using assms(1,2) pos by (subst floor_log_eq_powr_iff) simp_all
  with pos assms(3) show ?thesis by (simp add: float8_def Let_def max_def)
qed

lemma float8_below_one:
  assumes "1 / 2 ^ k \<le> \<bar>x\<bar>" and "\<bar>x\<bar> < 2 / 2 ^ k" and "k \<le> 1022"
  shows "float8 x = of_int (round_half_even (x * 2 ^ (k + 52))) / 2 ^ (k + 52)"
proof -
  have p: "(2::real) powr of_int (- int k) = 1 / 2 ^ k"
    by (simp add: powr_minus powr_realpow inverse_eq_divide)
  have "real_of_int (- int k + 1) = - real k + 1" by simp
  then have "(2::real) powr of_int (- int k + 1) = 2 powr (- real k) * 2 powr 1"
    by (simp only: powr_add)
  then have q: "(2::real) powr of_int (- int k + 1) = 2 / 2 ^ k"
    by (simp add: powr_minus powr_realpow inverse_eq_divide)
  have u: "(2::real) powr (of_int (- int k) - 52) = 1 / 2 ^ (k + 52)"
  proof -
    have "of_int (- int k) - (52::real) = - real (k + 52)" by simp
    then show ?thesis by (simp only: powr_minus powr_realpow) (simp add: inverse_eq_divide)
  qed
  from float8_binade[of "- int k" x] assms show ?thesis
    unfolding p q u by simp
qed

lemma float8_above_one:
  assumes "2 ^ k \<le> \<bar>x\<bar>" and "\<bar>x\<bar> < 2 * 2 ^ k" and "k \<le> 52"
  shows "float8 x = of_int (round_half_even (x * 2 ^ (52 - k))) / 2 ^ (52 - k)"
proof -
  have p: "(2::real) powr of_int (int k) = 2 ^ k"
    by (simp add: powr_realpow)
  have "real_of_int (int k + 1) = real k + 1" by simp
  then have "(2::real) powr of_int (int k + 1) = 2 powr (real k) * 2 powr 1"
    by (simp only: powr_add)
  then have q: "(2::real) powr of_int (int k + 1) = 2 * 2 ^ k"
    by (simp add: powr_realpow)
  have u: "(2::real) powr (of_int (int k) - 52) = 1 / 2 ^ (52 - k)"
  proof -
    have "of_int (int k) - (52::real) = - real (52 - k)" using assms(3) by simp
    then show ?thesis by (simp only: powr_minus powr_realpow) (simp add: inverse_eq_divide)
  qed
  from float8_binade[of "int k" x] assms(1,2) show ?thesis
    unfolding p q u by simp
qed

text \<open>The radius of the trigger is the double nearest to 0.001, a little above it.\<close>

lemma cluster_radius_double: "cluster_radius = 1152921504606847 / 1152921504606846976"
  unfolding cluster_radius_def
  by (subst float8_below_one[where k = 10]) (simp_all add: round_half_even_def)

lemma cluster_radius_positive: "0 < cluster_radius"
  by (simp add: cluster_radius_double)

text \<open>The sample decibel values and their running mean are doubles.\<close>

lemma float8_sample:
  "float8 (171 / 2) = 171 / 2" "float8 (351 / 2) = 351 / 2" "float8 (351 / 4) = 351 / 4"
proof -
  show "float8 (171 / 2) = 171 / 2"
    by (subst float8_above_one[where k = 6]) (simp_all add: round_half_even_def)
  show "float8 (351 / 2) = 351 / 2"
    by (subst float8_above_one[where k = 7]) (simp_all add: round_half_even_def)
  show "float8 (351 / 4) = 351 / 4"
    by (subst float8_above_one[where k = 6]) (simp_all add: round_half_even_def)
qed

lemma next_mean_sample: "next_mean 85.5 1 90 = 87.75"
proof -
  have "next_mean 85.5 1 90 = float8 (float8 (float8 (171 / 2) + 90) / 2)"
    by (simp add: next_mean_def)
  also have "\<dots> = float8 (float8 (351 / 2) / 2)" by (simp add: float8_sample(1))
  also have "\<dots> = float8 (351 / 4)" by (simp add: float8_sample(2))
  finally show ?thesis by (simp add: float8_sample(3))
qed

text \<open>
  The running mean of the double 0.1 taken three times is not 0.1: the sum of three
  rounds up, and so does its third.
\<close>

lemma float8_tenth:
  "float8 tenth = tenth"
  "float8 (2 * tenth) = 2 * tenth"
  "float8 (3 * tenth) = 1351079888211149 / 4503599627370496"
  "float8 (1351079888211149 / 13510798882111488) = 7205759403792795 / 72057594037927936"
proof -
  show "float8 tenth = tenth"
    by (subst float8_below_one[where k = 4]) (simp_all add: tenth_def round_half_even_def)
  show "float8 (2 * tenth) = 2 * tenth"
    by (subst float8_below_one[where k = 3]) (simp_all add: tenth_def round_half_even_def)
  show "float8 (3 * tenth) = 1351079888211149 / 4503599627370496"
    by (subst float8_below_one[where k = 2]) (simp_all add: tenth_def round_half_even_def)
  show "float8 (1351079888211149 / 13510798882111488) = 7205759403792795 / 72057594037927936"
    by (subst float8_below_one[where k = 4]) (simp_all add: round_half_even_def)
qed

lemma next_mean_tenth:
  "next_mean tenth 1 tenth = tenth"
  "next_mean tenth 2 tenth = 7205759403792795 / 72057594037927936"
proof -
  have "next_mean tenth 1 tenth = float8 (float8 (float8 tenth + tenth) / 2)"
    by (simp add: next_mean_def)
  also have "\<dots> = float8 (float8 (2 * tenth) / 2)" by (simp add: float8_tenth(1))
  also have "\<dots> = float8 tenth" by (simp add: float8_tenth(2))
  finally show "next_mean tenth 1 tenth = tenth" by (simp add: float8_tenth(1))
  have "next_mean tenth 2 tenth = float8 (float8 (float8 (2 * tenth) + tenth) / 3)"
    by (simp add: next_mean_def mult.commute)
  also have "\<dots> = float8 (float8 (3 * tenth) / 3)" by (simp add: float8_tenth(2))
  also have "\<dots> = float8 (1351079888211149 / 13510798882111488)"
    by (simp add: float8_tenth(3))
  finally show "next_mean tenth 2 tenth = 7205759403792795 / 72057594037927936"
    by (simp add: float8_tenth(4))
qed

lemma running_mean_snoc:
  "running_mean m c (xs @ [x]) = next_mean (running_mean m c xs) (c + int (length xs)) x"
proof (induction xs arbitrary: m c)
  case Nil
  then show ?case by simp
next
  case (Cons y ys)
  have "c + 1 + int (length ys) = c + int (length (y # ys))" by simp
  with Cons[of "next_mean m c y" "c + 1"] show ?case by simp
qed

lemma float8_mean_single: "float8_mean [x] = x"
  by (simp add: float8_mean_def)

lemma float8_mean_snoc:
  assumes "ds \<noteq> []"
  shows "float8_mean (ds @ [x]) = next_mean (float8_mean ds) (int (length ds)) x"
proof -
  from assms obtain first rest where ds: "ds = first # rest" by (cases ds) auto
  have "float8_mean (ds @ [x]) = running_mean first 1 (rest @ [x])"
    by (simp add: ds float8_mean_def)
  also have "\<dots> = next_mean (running_mean first 1 rest) (1 + int (length rest)) x"
    by (rule running_mean_snoc)
  also have "\<dots> = next_mean (float8_mean ds) (int (length ds)) x"
    by (simp add: ds float8_mean_def)
  finally show ?thesis .
qed

section \<open>The distance between a point and itself\<close>

lemma spec_ST_Distance_self: "spec_ST_Distance p p = 0"
  by (simp add: spec_ST_Distance_def spec_haversineDistanceKm_def)

lemma spec_ST_Distance_self_within: "spec_ST_Distance p p \<le> cluster_radius"
  using cluster_radius_positive by (simp add: spec_ST_Distance_self)

section \<open>The trigger on one report\<close>

lemma and_then_Inr:
  "and_then r f = Inr v \<longleftrightarrow> (\<exists>u. r = Inr u \<and> f u = Inr v)"
  by (cases r) (simp_all add: and_then_def)

lemma float8_operators:
  "float8mul a b = Inr v \<Longrightarrow> v = float8 (a * b)"
  "float8pl a b = Inr v \<Longrightarrow> v = float8 (a + b)"
  "float8div a b = Inr v \<Longrightarrow> v = float8 (a / b)"
  by (auto simp: float8mul_def float8pl_def float8div_def Let_def split: if_splits)

lemma new_avg_noise_db_Some:
  assumes "new_avg_noise_db (Some x) h = Inr avg"
  shows "avg = Some (next_mean (h_avg_noise_db h) (h_report_count h) x)
       \<and> h_report_count h \<noteq> 2147483647"
proof -
  from assms obtain product where
    p: "float8mul (h_avg_noise_db h) (of_int (h_report_count h)) = Inr product"
    by (cases "float8mul (h_avg_noise_db h) (of_int (h_report_count h))")
       (simp_all add: new_avg_noise_db_def and_then_def)
  from assms p obtain s where s: "float8pl product x = Inr s"
    by (cases "float8pl product x") (simp_all add: new_avg_noise_db_def and_then_def)
  from assms p s have c: "h_report_count h \<noteq> 2147483647"
    by (auto simp: new_avg_noise_db_def and_then_def)
  from assms p s c obtain quotient where
    q: "float8div s (of_int (h_report_count h + 1)) = Inr quotient"
    by (cases "float8div s (of_int (h_report_count h + 1))")
       (simp_all add: new_avg_noise_db_def and_then_def)
  from assms p s c q have "avg = Some quotient"
    by (simp add: new_avg_noise_db_def and_then_def)
  with float8_operators(1)[OF p] float8_operators(2)[OF s] float8_operators(3)[OF q] c
  show ?thesis by (simp add: next_mean_def)
qed

lemma new_avg_noise_db_None: "new_avg_noise_db None h = Inr avg \<Longrightarrow> avg = None"
  by (cases "float8mul (h_avg_noise_db h) (of_int (h_report_count h))")
     (auto simp: new_avg_noise_db_def and_then_def split: if_splits)

lemma update_row_Some:
  assumes "update_row e (Some x) h = Inr h'"
  shows "h' = h\<lparr>h_avg_noise_db := next_mean (h_avg_noise_db h) (h_report_count h) x,
                h_report_count := h_report_count h + 1,
                h_updated_at := now e\<rparr>"
proof -
  from assms obtain avg where n: "new_avg_noise_db (Some x) h = Inr avg"
    and r: "(case avg of None \<Rightarrow> Inl not_null_violation
              | Some a \<Rightarrow> Inr (update_updated_at_column e (set_clause e a h))) = Inr h'"
    unfolding update_row_def and_then_Inr by auto
  from new_avg_noise_db_Some[OF n] r show ?thesis
    by (simp add: update_updated_at_column_def set_clause_def)
qed

lemma update_row_None: "update_row e None h \<noteq> Inr h'"
proof
  assume "update_row e None h = Inr h'"
  then obtain avg where n: "new_avg_noise_db None h = Inr avg"
    and r: "(case avg of None \<Rightarrow> Inl not_null_violation
              | Some a \<Rightarrow> Inr (update_updated_at_column e (set_clause e a h))) = Inr h'"
    unfolding update_row_def and_then_Inr by auto
  from new_avg_noise_db_None[OF n] r show False by simp
qed

lemma update_rows_Some:
  "update_rows e (Some x) i hs = Inr hs' \<Longrightarrow>
     hs' = map (\<lambda>h. if h_id h = i
                   then h\<lparr>h_avg_noise_db := next_mean (h_avg_noise_db h) (h_report_count h) x,
                          h_report_count := h_report_count h + 1,
                          h_updated_at := now e\<rparr>
                   else h) hs"
proof (induction hs arbitrary: hs')
  case Nil
  then show ?case by simp
next
  case (Cons h hs)
  then show ?case
    by (auto split: if_splits sum.splits dest: update_row_Some)
qed

lemma update_rows_None:
  "update_rows e None i hs = Inr hs' \<Longrightarrow> i \<notin> h_id ` set hs"
proof (induction hs arbitrary: hs')
  case Nil
  then show ?case by simp
next
  case (Cons h hs)
  then show ?case
    by (auto simp: update_row_None split: if_splits sum.splits)
qed

lemma update_rows_ids:
  "update_rows e v i hs = Inr hs' \<Longrightarrow> map h_id hs' = map h_id hs"
proof (cases v)
  case None
  assume u: "update_rows e v i hs = Inr hs'"
  with None have "i \<notin> h_id ` set hs" by (auto dest: update_rows_None)
  with u show ?thesis
  proof (induction hs arbitrary: hs')
    case Nil
    then show ?case by simp
  next
    case (Cons h hs)
    then show ?case by (auto split: if_splits sum.splits)
  qed
next
  case (Some x)
  assume "update_rows e v i hs = Inr hs'"
  with Some have "hs' = map (\<lambda>h. if h_id h = i
                   then h\<lparr>h_avg_noise_db := next_mean (h_avg_noise_db h) (h_report_count h) x,
                          h_report_count := h_report_count h + 1,
                          h_updated_at := now e\<rparr>
                   else h) hs"
    by (auto dest: update_rows_Some)
  then show ?thesis by (simp add: comp_def if_distrib cong: if_cong)
qed

lemma update_hotspots_ids:
  "update_hotspots e v i hs = Inr hs' \<Longrightarrow> map h_id hs' = map h_id hs"
  by (auto simp: update_hotspots_def split: if_splits dest: update_rows_ids)

lemma within_cluster_far:
  "\<forall>h\<in>set hs. cluster_radius < d (h_location h) p \<Longrightarrow> within_cluster d hs p = []"
  by (auto simp: within_cluster_def ST_DWithin_def filter_empty_conv)


lemma select_hotspot_record_in_table:
  "select_hotspot_record d hs p (Some found) \<Longrightarrow> found \<in> set hs"
  by (simp add: select_hotspot_record_iff within_cluster_def)


text \<open>
  Under a role that does not bypass row-level security a run of the trigger that raises
  no error leaves the table as it was.
\<close>

lemma aggregate_as_app:
  assumes "\<not> bypasses_rls e" and "aggregate_reports_to_hotspots d e hs NEW (Inr hs')"
  shows "hs' = hs"
proof -
  from assms(2) obtain sel where "trigger_body e hs NEW sel = Inr hs'"
    by (auto elim: aggregate_reports_to_hotspots.cases)
  with assms(1) show ?thesis
    by (cases sel) (simp_all add: trigger_body_def insert_hotspot_def update_hotspots_def)
qed

section \<open>The running mean and the frame of an absorb\<close>

lemma update_hotspots_Some:
  assumes "bypasses_rls e" and "update_hotspots e (Some x) i hs = Inr hs'"
  shows "hs' = map (\<lambda>h. if h_id h = i
                   then h\<lparr>h_avg_noise_db := next_mean (h_avg_noise_db h) (h_report_count h) x,
                          h_report_count := h_report_count h + 1,
                          h_updated_at := now e\<rparr>
                   else h) hs"
  using assms by (auto simp: update_hotspots_def dest: update_rows_Some)

lemma history_invariant:
  assumes "history d rs hs ledger"
  shows "distinct (map h_id hs)
       \<and> (\<forall>i. i \<notin> h_id ` set hs \<longrightarrow> ledger i = [])
       \<and> (\<forall>h\<in>set hs. ledger (h_id h) \<noteq> []
             \<and> h_report_count h = int (length (ledger (h_id h)))
             \<and> h_avg_noise_db h = float8_mean (map snd (ledger (h_id h)))
             \<and> h_location h = fst (hd (ledger (h_id h))))"
  using assms
proof (induction rule: history.induct)
  case empty_store
  then show ?case by simp
next
  case (absorb rs hs ledger e NEW hotspot_record hs' x)
  show ?case
  proof (cases hotspot_record)
    case None
    with absorb.hyps(2,4,5) have fresh: "uuid_generate_v4 e \<notin> h_id ` set hs"
      and hs': "hs' = hs @ [\<lparr>h_id = uuid_generate_v4 e, h_location = r_location NEW,
                           h_avg_noise_db = x, h_report_count = 1,
                           h_created_at = now e, h_updated_at = now e\<rparr>]"
      by (auto simp: trigger_body_def insert_hotspot_def split: if_splits)
    from fresh absorb.IH have "ledger (uuid_generate_v4 e) = []" by blast
    with None fresh hs' absorb.IH show ?thesis
      by (auto simp: absorbed_into_def float8_mean_single)
  next
    case (Some found)
    with absorb.hyps(3) have mem: "found \<in> set hs"
      by (auto dest: select_hotspot_record_in_table)
    from Some absorb.hyps(2,4,5) have
      hs': "hs' = map (\<lambda>h. if h_id h = h_id found
                   then h\<lparr>h_avg_noise_db := next_mean (h_avg_noise_db h) (h_report_count h) x,
                          h_report_count := h_report_count h + 1,
                          h_updated_at := now e\<rparr>
                   else h) hs"
      by (auto simp: trigger_body_def dest: update_hotspots_Some)
    have ids: "map h_id hs' = map h_id hs"
      unfolding hs' by (simp add: comp_def if_distrib cong: if_cong)
    have tgt: "absorbed_into e hotspot_record = h_id found"
      using Some by (simp add: absorbed_into_def)
    have d: "distinct (map h_id hs')" using ids absorb.IH by simp
    have e: "\<forall>i. i \<notin> h_id ` set hs' \<longrightarrow>
        (ledger(h_id found := ledger (h_id found) @ [(r_location NEW, x)])) i = []"
    proof (intro allI impI)
      fix i assume "i \<notin> h_id ` set hs'"
      then have "i \<notin> h_id ` set hs" using ids by (metis set_map)
      moreover from this mem have "i \<noteq> h_id found" by auto
      ultimately show "(ledger(h_id found := ledger (h_id found) @ [(r_location NEW, x)])) i = []"
        using absorb.IH by simp
    qed
    have r: "\<forall>h'\<in>set hs'.
        (ledger(h_id found := ledger (h_id found) @ [(r_location NEW, x)])) (h_id h') \<noteq> []
      \<and> h_report_count h' =
          int (length ((ledger(h_id found := ledger (h_id found) @ [(r_location NEW, x)])) (h_id h')))
      \<and> h_avg_noise_db h' =
          float8_mean (map snd ((ledger(h_id found := ledger (h_id found) @ [(r_location NEW, x)])) (h_id h')))
      \<and> h_location h' =
          fst (hd ((ledger(h_id found := ledger (h_id found) @ [(r_location NEW, x)])) (h_id h')))"
    proof
      fix h' assume "h' \<in> set hs'"
      then obtain h where h: "h \<in> set hs"
        and h': "h' = (if h_id h = h_id found
                   then h\<lparr>h_avg_noise_db := next_mean (h_avg_noise_db h) (h_report_count h) x,
                          h_report_count := h_report_count h + 1,
                          h_updated_at := now e\<rparr>
                   else h)"
        unfolding hs' by auto
      from h absorb.IH have inv: "ledger (h_id h) \<noteq> []"
        "h_report_count h = int (length (ledger (h_id h)))"
        "h_avg_noise_db h = float8_mean (map snd (ledger (h_id h)))"
        "h_location h = fst (hd (ledger (h_id h)))"
        by auto
      show "(ledger(h_id found := ledger (h_id found) @ [(r_location NEW, x)])) (h_id h') \<noteq> []
      \<and> h_report_count h' =
          int (length ((ledger(h_id found := ledger (h_id found) @ [(r_location NEW, x)])) (h_id h')))
      \<and> h_avg_noise_db h' =
          float8_mean (map snd ((ledger(h_id found := ledger (h_id found) @ [(r_location NEW, x)])) (h_id h')))
      \<and> h_location h' =
          fst (hd ((ledger(h_id found := ledger (h_id found) @ [(r_location NEW, x)])) (h_id h')))"
      proof (cases "h_id h = h_id found")
        case True
        have ne: "map snd (ledger (h_id found)) \<noteq> []" using inv(1) True by simp
        have avg: "h_avg_noise_db h' =
            float8_mean (map snd (ledger (h_id found)) @ [x])"
          using True h' inv(2,3) float8_mean_snoc[OF ne, of x] by simp
        from True h' inv(1,2,4) avg show ?thesis by simp
      next
        case False
        with h' inv show ?thesis by simp
      qed
    qed
    from d e r show ?thesis unfolding tgt by blast
  qed
qed



lemma map_at_key:
  assumes "distinct (map key xs)" and "k < length xs"
  shows "map (\<lambda>x. if key x = key (xs ! k) then f x else x) xs = xs[k := f (xs ! k)]"
proof (rule nth_equalityI)
  show "length (map (\<lambda>x. if key x = key (xs ! k) then f x else x) xs) = length (xs[k := f (xs ! k)])"
    by simp
next
  fix i assume "i < length (map (\<lambda>x. if key x = key (xs ! k) then f x else x) xs)"
  then have i: "i < length xs" by simp
  have "key (xs ! i) = key (xs ! k) \<longleftrightarrow> i = k"
    using assms i by (metis length_map nth_eq_iff_index_eq nth_map)
  with i assms(2)
  show "map (\<lambda>x. if key x = key (xs ! k) then f x else x) xs ! i = xs[k := f (xs ! k)] ! i"
    by (simp add: nth_list_update)
qed

text \<open>
  C8. When the trigger takes the UPDATE branch on the selected hotspot, the new table is
  the old one with that single row replaced, and the replacement differs from the row in
  \<open>avg_noise_db\<close>, \<open>report_count\<close> and \<open>updated_at\<close> only: \<open>id\<close>, \<open>location\<close> and
  \<open>created_at\<close> stay. In every table reached from the empty one, before and after the
  step, the location of a hotspot is the position of the first report absorbed into it.
\<close>

theorem absorb_frame:
  assumes hist: "history d rs hs ledger"
    and sel: "select_hotspot_record d hs (r_location NEW) (Some found)"
    and upd: "trigger_body e hs NEW (Some found) = Inr hs'"
  shows "(\<exists>k<length hs. hs ! k = found \<and>
            hs' = hs[k := found\<lparr>h_avg_noise_db := h_avg_noise_db (hs' ! k),
                                 h_report_count := h_report_count (hs' ! k),
                                 h_updated_at := h_updated_at (hs' ! k)\<rparr>])
       \<and> (\<forall>h\<in>set hs. ledger (h_id h) \<noteq> [] \<and> h_location h = fst (hd (ledger (h_id h))))
       \<and> (\<forall>h\<in>set hs'. ledger (h_id h) \<noteq> [] \<and> h_location h = fst (hd (ledger (h_id h))))"
proof -
  note inv = history_invariant[OF hist]
  from sel have mem: "found \<in> set hs" by (rule select_hotspot_record_in_table)
  then obtain k where k: "k < length hs" "hs ! k = found" by (auto simp: in_set_conv_nth)
  from upd have u: "update_hotspots e (r_noise_db NEW) (h_id found) hs = Inr hs'"
    by (simp add: trigger_body_def)
  have old: "\<forall>h\<in>set hs. ledger (h_id h) \<noteq> [] \<and> h_location h = fst (hd (ledger (h_id h)))"
    using inv by blast
  show ?thesis
  proof (cases "bypasses_rls e")
    case False
    with u have same: "hs' = hs" by (simp add: update_hotspots_def)
    have "found\<lparr>h_avg_noise_db := h_avg_noise_db (hs ! k),
                h_report_count := h_report_count (hs ! k),
                h_updated_at := h_updated_at (hs ! k)\<rparr> = found"
      using k(2) by simp
    then have "hs = hs[k := found\<lparr>h_avg_noise_db := h_avg_noise_db (hs ! k),
                                  h_report_count := h_report_count (hs ! k),
                                  h_updated_at := h_updated_at (hs ! k)\<rparr>]"
      using k by (metis list_update_id)
    with k old same show ?thesis by blast
  next
    case True
    with u have rows: "update_rows e (r_noise_db NEW) (h_id found) hs = Inr hs'"
      by (simp add: update_hotspots_def)
    with mem obtain x where x: "r_noise_db NEW = Some x"
      by (cases "r_noise_db NEW") (auto dest: update_rows_None)
    from rows x have "hs' = map (\<lambda>h. if h_id h = h_id (hs ! k)
                   then h\<lparr>h_avg_noise_db := next_mean (h_avg_noise_db h) (h_report_count h) x,
                          h_report_count := h_report_count h + 1,
                          h_updated_at := now e\<rparr>
                   else h) hs"
      using k(2) by (auto dest: update_rows_Some)
    also have "\<dots> = hs[k := (hs ! k)\<lparr>h_avg_noise_db :=
                              next_mean (h_avg_noise_db (hs ! k)) (h_report_count (hs ! k)) x,
                          h_report_count := h_report_count (hs ! k) + 1,
                          h_updated_at := now e\<rparr>]"
      using inv k(1) by (intro map_at_key) auto
    finally have hs': "hs' = hs[k := found\<lparr>h_avg_noise_db :=
                              next_mean (h_avg_noise_db found) (h_report_count found) x,
                          h_report_count := h_report_count found + 1,
                          h_updated_at := now e\<rparr>]"
      using k(2) by simp
    have nth: "hs' ! k = found\<lparr>h_avg_noise_db :=
                              next_mean (h_avg_noise_db found) (h_report_count found) x,
                          h_report_count := h_report_count found + 1,
                          h_updated_at := now e\<rparr>"
      using hs' k(1) by simp
    have one: "hs' = hs[k := found\<lparr>h_avg_noise_db := h_avg_noise_db (hs' ! k),
                                   h_report_count := h_report_count (hs' ! k),
                                   h_updated_at := h_updated_at (hs' ! k)\<rparr>]"
      unfolding nth by (simp add: hs')
    have new: "\<forall>h\<in>set hs'. ledger (h_id h) \<noteq> [] \<and> h_location h = fst (hd (ledger (h_id h)))"
    proof
      fix h assume "h \<in> set hs'"
      then have "h \<in> set hs \<or> h = found\<lparr>h_avg_noise_db :=
                              next_mean (h_avg_noise_db found) (h_report_count found) x,
                          h_report_count := h_report_count found + 1,
                          h_updated_at := now e\<rparr>"
        unfolding hs' by (auto dest: set_update_subset_insert[THEN subsetD])
      with old mem show "ledger (h_id h) \<noteq> [] \<and> h_location h = fst (hd (ledger (h_id h)))"
        by auto
    qed
    from k one old new show ?thesis by blast
  qed
qed

lemma example_first_report:
  "\<exists>ledger. history spec_ST_Distance [connaught_place] [founded 10 0 connaught_place 85.5] ledger"
proof -
  have s: "select_hotspot_record spec_ST_Distance [] (r_location connaught_place) None"
    by (simp add: select_hotspot_record_iff within_cluster_def)
  have t: "trigger_body (as_owner 0 10) [] connaught_place None
      = Inr [founded 10 0 connaught_place 85.5]"
    by (simp add: trigger_body_def insert_hotspot_def founded_def connaught_place_def as_owner_def)
  have n: "r_noise_db connaught_place = Some 85.5" by (simp add: connaught_place_def)
  have b: "bypasses_rls (as_owner 0 10)" by (simp add: as_owner_def)
  from history.absorb[OF history.empty_store b s t n] show ?thesis by auto
qed

lemma select_same_place:
  assumes "h_location h = p"
  shows "select_hotspot_record spec_ST_Distance [h] p (Some h)"
  using assms spec_ST_Distance_self_within[of p]
  by (simp add: select_hotspot_record_iff within_cluster_def ST_DWithin_def)

lemma example_second_select:
  "select_hotspot_record spec_ST_Distance [founded 10 0 connaught_place 85.5]
     (r_location connaught_place_again) (Some (founded 10 0 connaught_place 85.5))"
  by (rule select_same_place) (simp add: founded_def connaught_place_again_def r_location_def)

lemma new_avg_noise_db_sample:
  "new_avg_noise_db (Some 90) (founded 10 0 connaught_place 85.5) = Inr (Some 87.75)"
proof -
  have "float8mul 85.5 1 = Inr 85.5"
    by (simp add: float8mul_def float8_sample)
  moreover have "float8pl 85.5 90 = Inr 175.5"
    by (simp add: float8pl_def float8_sample)
  moreover have "float8div 175.5 2 = Inr 87.75"
    by (simp add: float8div_def float8_sample)
  ultimately show ?thesis
    by (simp add: new_avg_noise_db_def and_then_def founded_def)
qed

lemma example_second_update:
  "trigger_body (as_owner 5 11) [founded 10 0 connaught_place 85.5]
     connaught_place_again (Some (founded 10 0 connaught_place 85.5))
   = Inr [(founded 10 0 connaught_place 85.5)
            \<lparr>h_avg_noise_db := 87.75, h_report_count := 2, h_updated_at := 5\<rparr>]"
proof -
  have "update_row (as_owner 5 11) (Some 90) (founded 10 0 connaught_place 85.5)
      = Inr ((founded 10 0 connaught_place 85.5)
            \<lparr>h_avg_noise_db := 87.75, h_report_count := 2, h_updated_at := 5\<rparr>)"
    unfolding update_row_def new_avg_noise_db_sample
    by (simp add: and_then_def update_updated_at_column_def set_clause_def as_owner_def
        founded_def)
  then show ?thesis
    by (simp add: trigger_body_def update_hotspots_def as_owner_def connaught_place_again_def
        founded_def)
qed








text \<open>The second of the sample reports is folded into the hotspot of the first, whose location stays.\<close>

theorem absorb_frame_witness:
  "trigger_body (as_owner 5 11) [founded 10 0 connaught_place 85.5]
     connaught_place_again (Some (founded 10 0 connaught_place 85.5))
   = Inr [(founded 10 0 connaught_place 85.5)
            \<lparr>h_avg_noise_db := 87.75, h_report_count := 2, h_updated_at := 5\<rparr>]
   \<and> h_location ((founded 10 0 connaught_place 85.5)
            \<lparr>h_avg_noise_db := 87.75, h_report_count := 2, h_updated_at := 5\<rparr>)
       = h_location (founded 10 0 connaught_place 85.5)"
proof -
  from example_first_report obtain l1 where
    h1: "history spec_ST_Distance [connaught_place] [founded 10 0 connaught_place 85.5] l1" ..
  note frame = absorb_frame[OF h1 example_second_select example_second_update]
  from frame have before:
    "h_location (founded 10 0 connaught_place 85.5)
       = fst (hd (l1 (h_id (founded 10 0 connaught_place 85.5))))"
    by simp
  from frame have after:
    "h_location ((founded 10 0 connaught_place 85.5)
            \<lparr>h_avg_noise_db := 87.75, h_report_count := 2, h_updated_at := 5\<rparr>)
       = fst (hd (l1 (h_id ((founded 10 0 connaught_place 85.5)
            \<lparr>h_avg_noise_db := 87.75, h_report_count := 2, h_updated_at := 5\<rparr>))))"
    by simp
  from before after have "h_location ((founded 10 0 connaught_place 85.5)
            \<lparr>h_avg_noise_db := 87.75, h_report_count := 2, h_updated_at := 5\<rparr>)
       = h_location (founded 10 0 connaught_place 85.5)"
    by simp
  with example_second_update show ?thesis by (rule conjI)
qed

section \<open>Founding a hotspot\<close>

text \<open>
  A report with a decibel value, farther than the cluster radius from every hotspot,
  inserted under a role that bypasses row-level security: every run of the trigger
  appends exactly one row to the table, at the report's own position, with the report's
  decibel value as average and a count of 1.
\<close>

lemma founding_as_owner:
  assumes far: "\<forall>h\<in>set hs. cluster_radius < d (h_location h) (r_location NEW)"
    and owner: "bypasses_rls e"
    and db: "r_noise_db NEW = Some x"
    and fresh: "uuid_generate_v4 e \<notin> h_id ` set hs"
    and run: "aggregate_reports_to_hotspots d e hs NEW res"
  shows "res = Inr (hs @ [\<lparr>h_id = uuid_generate_v4 e, h_location = r_location NEW,
                           h_avg_noise_db = x, h_report_count = 1,
                           h_created_at = now e, h_updated_at = now e\<rparr>])"
proof -
  have empty: "within_cluster d hs (r_location NEW) = []"
    using far by (rule within_cluster_far)
  from run obtain sel where sel: "select_hotspot_record d hs (r_location NEW) sel"
    and res: "res = trigger_body e hs NEW sel"
    by (auto elim: aggregate_reports_to_hotspots.cases)
  from sel empty have "sel = None"
    by (cases sel) (simp_all add: select_hotspot_record_iff)
  with res db fresh owner show ?thesis
    by (simp add: trigger_body_def insert_hotspot_def)
qed

text \<open>
  Under a role of the app the same report founds nothing: the INSERT of the trigger is
  refused by row-level security, whatever the report.
\<close>

lemma founding_as_app:
  assumes far: "\<forall>h\<in>set hs. cluster_radius < d (h_location h) (r_location NEW)"
    and app: "\<not> bypasses_rls e"
    and run: "aggregate_reports_to_hotspots d e hs NEW res"
  shows "res = Inl insufficient_privilege"
proof -
  have empty: "within_cluster d hs (r_location NEW) = []"
    using far by (rule within_cluster_far)
  from run obtain sel where sel: "select_hotspot_record d hs (r_location NEW) sel"
    and res: "res = trigger_body e hs NEW sel"
    by (auto elim: aggregate_reports_to_hotspots.cases)
  from sel empty have "sel = None"
    by (cases sel) (simp_all add: select_hotspot_record_iff)
  with res app show ?thesis
    by (simp add: trigger_body_def insert_hotspot_def)
qed

lemma sample_checked:
  "checked_report_row (supabase_client request_of_user_1) one_user
     (create_argument signed_in (traffic_report (Num 28.625) (Num 77.25) (Num 85.5)))
   = Inr (connaught_place\<lparr>r_id := 7, r_description := None, r_timestamp := 5\<rparr>)"
  by (simp add: checked_report_row_def new_report_row_def create_argument_def signed_in_def
      traffic_report_def request_of_user_1_def one_user_def anonymous_def insert_policy_def
      noise_db_check_def noise_type_check_def status_check_def connaught_place_def
      supabase_client_def JSON_stringify_def as_app_def)

text \<open>
  C2 fails on the path of the app. The first sample report, sent by a signed-in user
  against a database with no hotspot: the trigger selects no row, its INSERT into
  \<open>hotspots\<close> is refused, no run of the trigger returns a table, and the mutation throws
  the error of the trigger, with no report stored and no hotspot founded.
\<close>

theorem founding_refused_by_row_security:
  "aggregate_reports_to_hotspots spec_ST_Distance (as_app 5 10) []
     (connaught_place\<lparr>r_id := 7, r_description := None, r_timestamp := 5\<rparr>)
     (Inl insufficient_privilege)
   \<and> (\<nexists>hs'. aggregate_reports_to_hotspots spec_ST_Distance (as_app 5 10) []
     (connaught_place\<lparr>r_id := 7, r_description := None, r_timestamp := 5\<rparr>) (Inr hs'))
   \<and> createReportMutation spec_ST_Distance request_of_user_1 9 signed_in one_user
       (traffic_report (Num 28.625) (Num 77.25) (Num 85.5))
       (thrown_trigger_error insufficient_privilege, signed_in, one_user)"
proof -
  let ?NEW = "connaught_place\<lparr>r_id := 7, r_description := None, r_timestamp := 5\<rparr>"
  have s: "select_hotspot_record spec_ST_Distance [] (r_location ?NEW) None"
    by (simp add: select_hotspot_record_iff within_cluster_def)
  from aggregate_reports_to_hotspots.run[OF s, of "as_app 5 10"]
  have a: "aggregate_reports_to_hotspots spec_ST_Distance (as_app 5 10) [] ?NEW
      (Inl insufficient_privilege)"
    by (simp add: trigger_body_def insert_hotspot_def as_app_def)
  have n: "\<nexists>hs'. aggregate_reports_to_hotspots spec_ST_Distance (as_app 5 10) [] ?NEW (Inr hs')"
  proof
    assume "\<exists>hs'. aggregate_reports_to_hotspots spec_ST_Distance (as_app 5 10) [] ?NEW (Inr hs')"
    then obtain hs' where
      "aggregate_reports_to_hotspots spec_ST_Distance (as_app 5 10) [] ?NEW (Inr hs')" ..
    from founding_as_app[OF _ _ this] show False by (simp add: as_app_def)
  qed
  have e: "trigger_env (supabase_client request_of_user_1) = as_app 5 10"
    by (simp add: supabase_client_def request_of_user_1_def as_app_def)
  have h: "hotspots one_user = []" by (simp add: one_user_def)
  have g: "\<not> (user signed_in = None
      \<and> \<not> anonymous (traffic_report (Num 28.625) (Num 77.25) (Num 85.5)))"
    by (simp add: signed_in_def)
  have o: "isOnline signed_in" by (simp add: signed_in_def)
  from a have "aggregate_reports_to_hotspots spec_ST_Distance
      (trigger_env (supabase_client request_of_user_1)) (hotspots one_user) ?NEW
      (Inl insufficient_privilege)"
    unfolding e h .
  from createReportMutation.create_rolled_back[OF o g
      insert_into_reports.rolled_back[OF sample_checked this]]
  have m: "createReportMutation spec_ST_Distance request_of_user_1 9 signed_in one_user
       (traffic_report (Num 28.625) (Num 77.25) (Num 85.5))
       (thrown_trigger_error insufficient_privilege, signed_in, one_user)" .
  from a n m show ?thesis by blast
qed

section \<open>The SELECT of the trigger\<close>

text \<open>
  C6, as amended. The SELECT of the trigger always returns; it returns no row exactly
  when no hotspot lies within \<open>cluster_radius\<close> of the point; and a hotspot \<open>h\<close> is a
  row it may return exactly when \<open>h\<close> lies within the radius and no hotspot within the
  radius is closer. Of several closest hotspots at one distance each may be returned:
  the key takes no part in the choice.
\<close>

theorem select_nearest_or_none:
  "(\<exists>res. select_hotspot_record d hs p res)
   \<and> (select_hotspot_record d hs p None
        \<longleftrightarrow> (\<forall>h\<in>set hs. \<not> d (h_location h) p \<le> cluster_radius))
   \<and> (select_hotspot_record d hs p (Some h)
        \<longleftrightarrow> h \<in> set hs \<and> d (h_location h) p \<le> cluster_radius
          \<and> (\<forall>h'\<in>set hs. d (h_location h') p \<le> cluster_radius
                \<longrightarrow> d (h_location h) p \<le> d (h_location h') p))"
proof (intro conjI)
  show "\<exists>res. select_hotspot_record d hs p res" by (rule select_hotspot_record_total)
next
  show "select_hotspot_record d hs p None
        \<longleftrightarrow> (\<forall>h\<in>set hs. \<not> d (h_location h) p \<le> cluster_radius)"
    by (simp add: select_hotspot_record_iff within_cluster_def ST_DWithin_def filter_empty_conv)
next
  show "select_hotspot_record d hs p (Some h)
        \<longleftrightarrow> h \<in> set hs \<and> d (h_location h) p \<le> cluster_radius
          \<and> (\<forall>h'\<in>set hs. d (h_location h') p \<le> cluster_radius
                \<longrightarrow> d (h_location h) p \<le> d (h_location h') p)"
    by (auto simp: select_hotspot_record_iff within_cluster_def ST_DWithin_def)
qed

lemma twin_distance:
  "spec_ST_Distance (h_location twin_1) (r_location connaught_place) = 0"
  "spec_ST_Distance (h_location twin_2) (r_location connaught_place) = 0"
  by (simp_all add: twin_1_def twin_2_def founded_def spec_ST_Distance_self)

lemma twin_keys: "h_id twin_1 = 1" "h_id twin_2 = 2"
  by (simp_all add: twin_1_def twin_2_def founded_def)

text \<open>Of two hotspots at the position of the report, the SELECT may return the first.\<close>

theorem select_nearest_or_none_witness:
  "select_hotspot_record spec_ST_Distance [twin_1, twin_2] (r_location connaught_place)
     (Some twin_1)"
  using select_nearest_or_none[of spec_ST_Distance "[twin_1, twin_2]"
      "r_location connaught_place" twin_1] cluster_radius_positive
  by (simp add: twin_distance)

text \<open>
  C6 as stated fails: of two hotspots at the same distance, within the radius, the
  SELECT may return the one with the greater key.
\<close>

theorem select_nearest_tie_counterexample:
  "select_hotspot_record spec_ST_Distance [twin_1, twin_2] (r_location connaught_place)
     (Some twin_2)
   \<and> spec_ST_Distance (h_location twin_1) (r_location connaught_place)
       = spec_ST_Distance (h_location twin_2) (r_location connaught_place)
   \<and> spec_ST_Distance (h_location twin_1) (r_location connaught_place) \<le> cluster_radius
   \<and> h_id twin_1 < h_id twin_2"
  using cluster_radius_positive
  by (simp add: select_hotspot_record_iff within_cluster_def ST_DWithin_def twin_distance
      twin_keys)

section \<open>The order of hotspots.getAll\<close>

lemma order_by_desc_exists: "order_by_desc key rows (rev (sort_key key rows))"
  unfolding order_by_desc_def
  by (simp add: rev_map[symmetric] sorted_wrt_rev)

lemma mset_take_subset: "mset (take n xs) \<subseteq># mset xs"
proof -
  have "mset xs = mset (take n xs) + mset (drop n xs)"
    by (metis append_take_drop_id mset_append)
  then show ?thesis by simp
qed

lemma apply_limit_prefix:
  "mset (apply_limit limit rows) \<subseteq># mset rows"
  "sorted_wrt P rows \<Longrightarrow> sorted_wrt P (apply_limit limit rows)"
  "length (apply_limit limit rows)
     = (case limit of None \<Rightarrow> length rows
        | Some n \<Rightarrow> if n \<noteq> 0 then min n (length rows) else length rows)"
  by (auto simp: apply_limit_def mset_take_subset sorted_wrt_take split: option.splits)

text \<open>
  C7, as amended. For every table and every limit, \<open>hotspots.getAll\<close> answers, and
  every answer is in descending order of \<open>avg_noise_db\<close>, consists of rows of the table,
  and has \<open>limit\<close> rows at most when a limit other than 0 is given (all rows
  otherwise). The order of rows with equal averages is not determined.
\<close>

theorem getAll_sorted_by_average:
  "(\<exists>out. hotspots_getAll hs limit out)
   \<and> (\<forall>out. hotspots_getAll hs limit out \<longrightarrow>
          sorted_wrt (\<lambda>a b. h_avg_noise_db a \<ge> h_avg_noise_db b) out
        \<and> mset out \<subseteq># mset hs
        \<and> length out = (case limit of None \<Rightarrow> length hs
                         | Some n \<Rightarrow> if n \<noteq> 0 then min n (length hs) else length hs))"
proof (intro conjI allI impI)
  show "\<exists>out. hotspots_getAll hs limit out"
    using hotspots_getAll.data[OF order_by_desc_exists] by blast
next
  fix out
  assume "hotspots_getAll hs limit out"
  then obtain rows where o: "order_by_desc h_avg_noise_db hs rows"
    and out: "out = apply_limit limit rows"
    by (auto elim: hotspots_getAll.cases)
  from o have m: "mset rows = mset hs"
    and s: "sorted_wrt (\<lambda>a b. h_avg_noise_db a \<ge> h_avg_noise_db b) rows"
    by (simp_all add: order_by_desc_def sorted_wrt_map)
  from m have l: "length rows = length hs" by (metis size_mset)
  show "sorted_wrt (\<lambda>a b. h_avg_noise_db a \<ge> h_avg_noise_db b) out"
    unfolding out using s by (rule apply_limit_prefix)
  show "mset out \<subseteq># mset hs"
    unfolding out using apply_limit_prefix(1)[of limit rows] m by simp
  show "length out = (case limit of None \<Rightarrow> length hs
                         | Some n \<Rightarrow> if n \<noteq> 0 then min n (length hs) else length hs)"
    unfolding out apply_limit_prefix(3) l ..
qed

lemma equal_average_order:
  "order_by_desc h_avg_noise_db [single_report_hotspot, five_report_hotspot]
     [single_report_hotspot, five_report_hotspot]"
  by (simp add: order_by_desc_def single_report_hotspot_def five_report_hotspot_def)

text \<open>With a limit of 1, an answer has one row.\<close>

theorem getAll_sorted_by_average_witness:
  "hotspots_getAll [single_report_hotspot, five_report_hotspot] (Some 1) [single_report_hotspot]
   \<and> length [single_report_hotspot] = min 1 (length [single_report_hotspot, five_report_hotspot])"
proof -
  from hotspots_getAll.data[OF equal_average_order, of "Some 1"]
  have g: "hotspots_getAll [single_report_hotspot, five_report_hotspot] (Some 1)
      [single_report_hotspot]"
    by (simp add: apply_limit_def)
  with getAll_sorted_by_average[of "[single_report_hotspot, five_report_hotspot]" "Some 1"]
  have "length [single_report_hotspot] = min 1 (length [single_report_hotspot, five_report_hotspot])"
    by fastforce
  with g show ?thesis by (rule conjI)
qed

text \<open>
  C7 as stated fails: of two hotspots with equal averages, the one with fewer reports
  may come first.
\<close>

theorem getAll_tie_counterexample:
  "hotspots_getAll [single_report_hotspot, five_report_hotspot] None
     [single_report_hotspot, five_report_hotspot]
   \<and> \<not> spec_listBySeverityDesc_order [single_report_hotspot, five_report_hotspot]"
proof -
  from hotspots_getAll.data[OF equal_average_order, of None]
  have "hotspots_getAll [single_report_hotspot, five_report_hotspot] None
     [single_report_hotspot, five_report_hotspot]"
    by (simp add: apply_limit_def)
  moreover have "\<not> spec_listBySeverityDesc_order [single_report_hotspot, five_report_hotspot]"
    by (simp add: spec_listBySeverityDesc_order_def spec_severity_before_def
        single_report_hotspot_def five_report_hotspot_def)
  ultimately show ?thesis by (rule conjI)
qed

section \<open>The utilities of lib/utils.ts\<close>

lemma sum_of_squares_nonneg:
  "0 \<le> acc \<Longrightarrow> 0 \<le> foldl (\<lambda>acc sample. acc + sample * sample) (acc::real) samples"
  by (induction samples arbitrary: acc) simp_all

lemma sum_of_squares_silent:
  "foldl (\<lambda>acc sample. acc + sample * sample) (0::real) (replicate n 0) = 0"
  by (induction n) simp_all

lemma clamp_in_range:
  assumes "v \<noteq> NaN"
  shows "\<exists>r. Math_max (Num 0) (Math_min (Num 120) (Math_abs v)) = Num r \<and> 0 \<le> r \<and> r \<le> 120"
  using assms by (cases v) (simp_all add: Math_max_def Math_min_def Math_abs_def)

lemma db_not_NaN:
  assumes "0 \<le> q"
  shows "times_number 20 (Math_log10 (divide_number (Math_sqrt (Num q)) 32767)) \<noteq> NaN"
  using assms
  by (simp add: times_number_def Math_log10_def divide_number_def Math_sqrt_def)

text \<open>
  C10. For every array of finite samples, and for a missing array, the result is a
  finite number in \<open>[0, 120]\<close>; for a missing and for an empty array it is 0; for a
  non-empty array of zeros it is 120, since the logarithm of 0 is \<open>-Infinity\<close> and the
  clamp takes its absolute value.
\<close>

theorem calculateDbFromAudio_range:
  "(\<exists>r. calculateDbFromAudio audioData = Num r \<and> 0 \<le> r \<and> r \<le> 120)
   \<and> calculateDbFromAudio None = Num 0
   \<and> calculateDbFromAudio (Some []) = Num 0
   \<and> calculateDbFromAudio (Some (replicate (Suc n) 0)) = Num 120"
proof (intro conjI)
  show "\<exists>r. calculateDbFromAudio audioData = Num r \<and> 0 \<le> r \<and> r \<le> 120"
  proof (cases audioData)
    case None
    then show ?thesis by (simp add: calculateDbFromAudio_def)
  next
    case (Some samples)
    show ?thesis
    proof (cases "samples = []")
      case True
      with Some show ?thesis by (simp add: calculateDbFromAudio_def)
    next
      case False
      have "0 \<le> foldl (\<lambda>acc sample. acc + sample * sample) 0 samples / real (length samples)"
        by (simp add: sum_of_squares_nonneg)
      from clamp_in_range[OF db_not_NaN[OF this]] Some False show ?thesis
        by (simp add: calculateDbFromAudio_def Let_def)
    qed
  qed
next
  show "calculateDbFromAudio None = Num 0" by (simp add: calculateDbFromAudio_def)
next
  show "calculateDbFromAudio (Some []) = Num 0" by (simp add: calculateDbFromAudio_def)
next
  show "calculateDbFromAudio (Some (replicate (Suc n) 0)) = Num 120"
    unfolding calculateDbFromAudio_def Let_def
    by (simp add: sum_of_squares_silent[of "Suc n", simplified] Math_sqrt_def divide_number_def
        Math_log10_def times_number_def Math_abs_def Math_min_def Math_max_def)
qed

section \<open>Validation on the way in\<close>













text \<open>The hotspot at latitude 85 is founded when the owner inserts a report from there.\<close>

lemma polar_hotspot_reached:
  "\<exists>ledger. history spec_ST_Distance [polar_report] [polar_hotspot] ledger"
proof -
  have s: "select_hotspot_record spec_ST_Distance [] (r_location polar_report) None"
    by (simp add: select_hotspot_record_iff within_cluster_def)
  have t: "trigger_body (as_owner 0 4) [] polar_report None = Inr [polar_hotspot]"
    by (simp add: trigger_body_def insert_hotspot_def polar_hotspot_def founded_def
        polar_report_def as_owner_def)
  have n: "r_noise_db polar_report = Some 40" by (simp add: polar_report_def)
  have b: "bypasses_rls (as_owner 0 4)" by (simp add: as_owner_def)
  from history.absorb[OF history.empty_store b s t n] show ?thesis by auto
qed



section \<open>Concurrent absorbs\<close>


















end
